theory Spec2Isabelle
  imports
    Main
    "HOL-Library.Finite_Map"
    "HOL-Library.Multiset"
    "HOL-Library.Sublist"
    "HOL-Library.Char_ord"
    "HOL-Library.List_Lexorder"
begin

section \<open>External commands\<close>

text \<open>
  \<^verbatim>\<open>exec.Command("git", "-C", projectPath, ...).Run()\<close> starts an external process and
  waits for it. A command is the program name followed by its arguments. The outside
  world (the repositories on disk, the remote) is a state \<open>'w\<close> that every command may
  change; a runner gives, for a command and a world, what \<open>Run\<close> returns (\<open>None\<close> for
  \<open>nil\<close>, otherwise the text of the error) and the world afterwards.
\<close>

type_synonym command = "string list"

type_synonym 'w runner = "command \<Rightarrow> 'w \<Rightarrow> string option \<times> 'w"

text \<open>
  A runner that also records every command it is given, in the order of the calls.
\<close>

definition logged :: "'w runner \<Rightarrow> (command list \<times> 'w) runner" where
  "logged run c s =
     (case s of (log, w) \<Rightarrow> (case run c w of (e, w') \<Rightarrow> (e, (log @ [c], w'))))"

section \<open>The branch switch of one repository: \<open>switchBranch\<close>\<close>

text \<open>
  The result is Go's \<open>error\<close>: \<open>None\<close> for \<open>nil\<close>, otherwise the message built by
  \<open>fmt.Errorf\<close>. The results of \<open>stash\<close> and \<open>branch -D main\<close> are dropped.
\<close>

definition switchBranch :: "'w runner \<Rightarrow> string \<Rightarrow> string \<Rightarrow> 'w \<Rightarrow> string option \<times> 'w" where
  "switchBranch run projectPath branchName w0 =
     (case run [''git'', ''-C'', projectPath, ''stash''] w0 of (_, w1) \<Rightarrow>
      (case run [''git'', ''-C'', projectPath, ''fetch'', ''origin''] w1 of
         (Some err, w2) \<Rightarrow> (Some (''failed to fetch: '' @ err), w2)
       | (None, w2) \<Rightarrow>
      (case run [''git'', ''-C'', projectPath, ''branch'', ''-D'', ''main''] w2 of (_, w3) \<Rightarrow>
      (case run [''git'', ''-C'', projectPath, ''checkout'', ''--track'', ''origin/main''] w3 of
         (Some err, w4) \<Rightarrow> (Some (''failed to checkout main: '' @ err), w4)
       | (None, w4) \<Rightarrow>
      (case run [''git'', ''-C'', projectPath, ''pull'', ''origin'', ''main''] w4 of
         (Some err, w5) \<Rightarrow> (Some (''failed to pull: '' @ err), w5)
       | (None, w5) \<Rightarrow>
      (if branchName \<noteq> '''' then
         (case run [''git'', ''-C'', projectPath, ''checkout'', ''-b'', branchName] w5 of
            (Some err, w6) \<Rightarrow> (Some (''failed to create branch: '' @ err), w6)
          | (None, w6) \<Rightarrow> (None, w6))
       else (None, w5)))))))"

subsection \<open>The sequence as the specification words it\<close>

datatype stage = Fetch | Checkout | Pull | BranchCreate

datatype outcome = Success | Failure stage string

datatype operation = SwitchToMain | SwitchToMainAndBranch string

datatype policy = BestEffort | Aborting stage

text \<open>
  The fixed steps, in order, each with what a failure of it means; the last one only for
  \<open>SwitchToMainAndBranch\<close>.
\<close>

definition spec_steps :: "string \<Rightarrow> operation \<Rightarrow> (command \<times> policy) list" where
  "spec_steps repoPath op =
     [([''git'', ''-C'', repoPath, ''stash''], BestEffort),
      ([''git'', ''-C'', repoPath, ''fetch'', ''origin''], Aborting Fetch),
      ([''git'', ''-C'', repoPath, ''branch'', ''-D'', ''main''], BestEffort),
      ([''git'', ''-C'', repoPath, ''checkout'', ''--track'', ''origin/main''], Aborting Checkout),
      ([''git'', ''-C'', repoPath, ''pull'', ''origin'', ''main''], Aborting Pull)]
     @ (case op of
          SwitchToMain \<Rightarrow> []
        | SwitchToMainAndBranch b \<Rightarrow>
            [([''git'', ''-C'', repoPath, ''checkout'', ''-b'', b], Aborting BranchCreate)])"

text \<open>
  Running the steps: a best-effort step never stops the sequence, an aborting step that
  fails ends it with its stage, nothing runs after that and nothing is undone.
\<close>

fun spec_execute :: "'w runner \<Rightarrow> (command \<times> policy) list \<Rightarrow> 'w \<Rightarrow> outcome \<times> 'w" where
  "spec_execute run [] w = (Success, w)"
| "spec_execute run ((c, BestEffort) # rest) w =
     (case run c w of (_, w') \<Rightarrow> spec_execute run rest w')"
| "spec_execute run ((c, Aborting st) # rest) w =
     (case run c w of
        (None, w') \<Rightarrow> spec_execute run rest w'
      | (Some err, w') \<Rightarrow> (Failure st err, w'))"

text \<open>
  The code has no outcome type: the stage of a failure is the fixed text in front of the
  command's error, and the operation is the branch name, empty for the plain switch.
\<close>

fun stage_text :: "stage \<Rightarrow> string" where
  "stage_text Fetch = ''failed to fetch: ''"
| "stage_text Checkout = ''failed to checkout main: ''"
| "stage_text Pull = ''failed to pull: ''"
| "stage_text BranchCreate = ''failed to create branch: ''"

fun outcome_error :: "outcome \<Rightarrow> string option" where
  "outcome_error Success = None"
| "outcome_error (Failure st err) = Some (stage_text st @ err)"

definition operation_of :: "string \<Rightarrow> operation" where
  "operation_of branchName =
     (if branchName \<noteq> '''' then SwitchToMainAndBranch branchName else SwitchToMain)"

section \<open>The model and its messages\<close>

record project =
  name :: string
  path :: string

datatype mode = modeSelectAction | modeSelectProjects | modeEnterBranch | modeProcessing

datatype msgType =
  msgToggleProject | msgToggleAll | msgConfirm | msgSetMode | msgSetBranchName
  | msgProcessComplete | msgError

record msg =
  Type :: msgType
  ProjectID :: int
  Mode :: mode
  Branch :: string
  Error :: "string option"

text \<open>
  \<open>selected\<close> is a Go \<open>map[int]bool\<close>: a finite map, where reading a missing key gives
  \<open>false\<close> and \<open>len\<close> counts the keys, whatever their values.
\<close>

record model =
  projects :: "project list"
  selected :: "(int, bool) fmap"
  cursor :: int
  mode :: mode
  action :: int
  branchName :: string
  processing :: bool
  error :: string

definition map_get :: "(int, bool) fmap \<Rightarrow> int \<Rightarrow> bool" where
  "map_get s k = (case fmlookup s k of Some v \<Rightarrow> v | None \<Rightarrow> False)"

definition map_len :: "(int, bool) fmap \<Rightarrow> nat" where
  "map_len s = fcard (fmdom s)"

text \<open>\<open>for i := range m.projects { m.selected[i] = true }\<close>\<close>

definition select_each :: "project list \<Rightarrow> (int, bool) fmap \<Rightarrow> (int, bool) fmap" where
  "select_each ps s = fold (\<lambda>i acc. fmupd (int i) True acc) [0..<length ps] s"

text \<open>
  A message of the framework is a key press (with the text of \<open>msg.String()\<close>), a value of
  the program's own \<open>msg\<close> type sent back by a command, or anything else.
\<close>

datatype tea_msg = KeyMsg string | AppMsg msg | OtherMsg

text \<open>
  A command is \<open>tea.Quit\<close> or the timer tick built by \<open>processProjects\<close>, whose callback
  holds the model and the branch name it was built with. (In Go the map of that model is
  shared with the model that the program goes on with; the callback is taken here on the
  map as it was when the command was built.)
\<close>

datatype cmd = Quit | Tick model string

definition processProjects :: "model \<Rightarrow> string \<Rightarrow> cmd" where
  "processProjects m b = Tick m b"

section \<open>The update function\<close>

definition updateActionSelect :: "model \<Rightarrow> string \<Rightarrow> model \<times> cmd option" where
  "updateActionSelect m key =
     (if key = ''q'' \<or> key = ''ctrl+c'' then (m, Some Quit)
      else if key = ''up'' \<or> key = ''k'' then
        ((if cursor m > 0 then m\<lparr>cursor := cursor m - 1\<rparr> else m), None)
      else if key = ''down'' \<or> key = ''j'' then
        ((if cursor m < 1 then m\<lparr>cursor := cursor m + 1\<rparr> else m), None)
      else if key = ''enter'' then
        (m\<lparr>action := cursor m, mode := modeSelectProjects, cursor := 0,
           selected := select_each (projects m) (selected m)\<rparr>, None)
      else (m, None))"

definition updateProjectSelect :: "model \<Rightarrow> string \<Rightarrow> model \<times> cmd option" where
  "updateProjectSelect m key =
     (if key = ''q'' \<or> key = ''ctrl+c'' then (m, Some Quit)
      else if key = ''esc'' then
        (m\<lparr>mode := modeSelectAction, cursor := 0, selected := fmempty\<rparr>, None)
      else if key = ''up'' \<or> key = ''k'' then
        ((if cursor m > 0 then m\<lparr>cursor := cursor m - 1\<rparr> else m), None)
      else if key = ''down'' \<or> key = ''j'' then
        ((if cursor m < int (length (projects m)) - 1 then m\<lparr>cursor := cursor m + 1\<rparr> else m),
         None)
      else if key = '' '' then
        (m\<lparr>selected := fmupd (cursor m) (\<not> map_get (selected m) (cursor m)) (selected m)\<rparr>,
         None)
      else if key = ''a'' then
        (let allSelected = (map_len (selected m) = length (projects m)) in
         (m\<lparr>selected := (if \<not> allSelected then select_each (projects m) fmempty else fmempty)\<rparr>,
          None))
      else if key = ''enter'' then
        (if map_len (selected m) = 0 then (m\<lparr>error := ''No projects selected''\<rparr>, None)
         else if action m = 1 then (m\<lparr>mode := modeEnterBranch, branchName := ''''\<rparr>, None)
         else (m, Some (processProjects m '''')))
      else (m, None))"

definition updateBranchInput :: "model \<Rightarrow> string \<Rightarrow> model \<times> cmd option" where
  "updateBranchInput m key =
     (if key = ''q'' \<or> key = ''ctrl+c'' then (m, Some Quit)
      else if key = ''esc'' then (m\<lparr>mode := modeSelectProjects\<rparr>, None)
      else if key = ''enter'' then
        (if branchName m = '''' then (m\<lparr>error := ''Branch name cannot be empty''\<rparr>, None)
         else (m, Some (processProjects m (branchName m))))
      else if key = ''backspace'' then
        ((if length (branchName m) > 0 then m\<lparr>branchName := butlast (branchName m)\<rparr> else m),
         None)
      else
        ((if length key = 1 then m\<lparr>branchName := branchName m @ key\<rparr> else m), None))"

fun Update :: "model \<Rightarrow> tea_msg \<Rightarrow> model \<times> cmd option" where
  "Update m (KeyMsg key) =
     (case mode m of
        modeSelectAction \<Rightarrow> updateActionSelect m key
      | modeSelectProjects \<Rightarrow> updateProjectSelect m key
      | modeEnterBranch \<Rightarrow> updateBranchInput m key
      | modeProcessing \<Rightarrow> (m, None))"
| "Update m (AppMsg _) = (m, None)"
| "Update m OtherMsg = (m, None)"

section \<open>The batch: the callback of \<open>processProjects\<close>\<close>

text \<open>
  The callback ranges over the map \<open>m.selected\<close>. Go does not fix the order of that
  iteration: any sequence holding each entry of the map once can be the one a run takes.
\<close>

definition map_range :: "(int, bool) fmap \<Rightarrow> (int \<times> bool) list \<Rightarrow> bool" where
  "map_range s kvs \<longleftrightarrow> distinct (map fst kvs) \<and> fmap_of_list kvs = s"

datatype panic = IndexOutOfRange

definition complete_msg :: msg where
  "complete_msg =
     \<lparr>Type = msgProcessComplete, ProjectID = 0, Mode = modeSelectAction, Branch = '''',
      Error = None\<rparr>"

definition error_msg :: "string \<Rightarrow> msg" where
  "error_msg err =
     \<lparr>Type = msgError, ProjectID = 0, Mode = modeSelectAction, Branch = '''',
      Error = Some err\<rparr>"

text \<open>
  The loop over the entries, in the order of the iteration. \<open>m.projects[id]\<close> panics
  when \<open>id\<close> is not an index of the slice.
\<close>

fun process_entries ::
  "'w runner \<Rightarrow> project list \<Rightarrow> string \<Rightarrow> (int \<times> bool) list \<Rightarrow> 'w \<Rightarrow> (panic + msg) \<times> 'w"
where
  "process_entries run ps b [] w = (Inr complete_msg, w)"
| "process_entries run ps b ((i, sel) # rest) w =
     (if \<not> sel then process_entries run ps b rest w
      else if i < 0 \<or> int (length ps) \<le> i then (Inl IndexOutOfRange, w)
      else
        (case switchBranch run (path (ps ! nat i)) b w of
           (Some err, w') \<Rightarrow> (Inr (error_msg err), w')
         | (None, w') \<Rightarrow> process_entries run ps b rest w'))"

fun run_cmd :: "'w runner \<Rightarrow> cmd \<Rightarrow> (int \<times> bool) list \<Rightarrow> 'w \<Rightarrow> ((panic + msg) \<times> 'w) option" where
  "run_cmd run Quit kvs w = None"
| "run_cmd run (Tick m b) kvs w = Some (process_entries run (projects m) b kvs w)"

section \<open>Finding the repositories: \<open>findProjects\<close> and \<open>main\<close>\<close>

text \<open>
  What the program asks of the operating system and of \<open>path/filepath\<close>. A call that
  returns a value and an error is a pair; \<open>os.Stat\<close> gives the error or, without one,
  \<open>IsDir()\<close> of the file it found.
\<close>

record dirent =
  Name :: string
  IsDir :: bool

record filesystem =
  Getwd :: "string \<times> string option"
  ReadDir :: "string \<Rightarrow> dirent list \<times> string option"
  Stat :: "string \<Rightarrow> string + bool"
  Dir :: "string \<Rightarrow> string"
  Join :: "string list \<Rightarrow> string"

fun find_loop :: "filesystem \<Rightarrow> string \<Rightarrow> dirent list \<Rightarrow> project list \<Rightarrow> project list" where
  "find_loop fs parentDir [] ps = ps"
| "find_loop fs parentDir (dir # dirs) ps =
     (if IsDir dir then
        (let gitPath = Join fs [parentDir, Name dir, ''.git''] in
         (case Stat fs gitPath of
            Inr True \<Rightarrow>
              find_loop fs parentDir dirs
                (ps @ [\<lparr>name = Name dir, path = Join fs [parentDir, Name dir]\<rparr>])
          | _ \<Rightarrow> find_loop fs parentDir dirs ps))
      else find_loop fs parentDir dirs ps)"

text \<open>
  \<open>sort.Slice\<close> with \<open>projects[i].name < projects[j].name\<close>: Go compares strings byte by
  byte, which is the lexicographic order of \<open>char list\<close> with characters ordered by
  their code.
\<close>

definition findProjects :: "filesystem \<Rightarrow> project list" where
  "findProjects fs =
     (case Getwd fs of (cwd, _) \<Rightarrow>
      (let parentDir = Dir fs cwd in
       (case ReadDir fs parentDir of (dirs, _) \<Rightarrow>
          sort_key name (find_loop fs parentDir dirs []))))"

datatype startup = Exit string nat | RunProgram model

definition main :: "filesystem \<Rightarrow> startup" where
  "main fs =
     (let ps = findProjects fs in
      if length ps = 0 then Exit ''No Git repositories found in parent directory'' 1
      else RunProgram
        \<lparr>projects = ps, selected = fmempty, cursor = 0, mode = modeSelectAction, action = 0,
         branchName = '''', processing = False, error = ''''\<rparr>)"

section \<open>What \<open>Run\<close> returns for a finished process\<close>

text \<open>
  How a call of \<open>Run\<close> on the external tool ends: the process exits with a status,
  or it is ended by a signal (with the name of the signal as Go prints it, and whether it
  dumped core), each having written some text to its standard error; or \<open>Run\<close> has an
  error of its own, since the process could not be started or waited for.
  \<open>switchBranch\<close> sets neither \<open>Stdout\<close> nor \<open>Stderr\<close> of the command, so \<open>os/exec\<close>
  discards what the process writes. \<open>Run\<close> returns \<open>nil\<close> for the exit status 0 only;
  the error of another exit prints as \<open>exit status N\<close>, that of a signal as
  \<open>signal: name\<close>, with \<open>(core dumped)\<close> after it when the process dumped core.
\<close>

datatype finished =
  Exited nat string
  | Signaled string bool string
  | RunFailed string

type_synonym 'w tool = "command \<Rightarrow> 'w \<Rightarrow> finished \<times> 'w"

fun decimal :: "nat \<Rightarrow> string" where
  "decimal n =
     (if n < 10 then [''0123456789'' ! n]
      else decimal (n div 10) @ [''0123456789'' ! (n mod 10)])"

declare decimal.simps [simp del]

definition Run :: "'w tool \<Rightarrow> 'w runner" where
  "Run tool c w =
     (case tool c w of
        (Exited n _, w') \<Rightarrow> ((if n = 0 then None else Some (''exit status '' @ decimal n)), w')
      | (Signaled sig core _, w') \<Rightarrow>
          (Some (''signal: '' @ sig @ (if core then '' (core dumped)'' else '''')), w')
      | (RunFailed e, w') \<Rightarrow> (Some e, w'))"

text \<open>The same tool with its standard error emptied.\<close>

definition silenced :: "'w tool \<Rightarrow> 'w tool" where
  "silenced tool c w =
     (case tool c w of
        (Exited n _, w') \<Rightarrow> (Exited n [], w')
      | (Signaled sig core _, w') \<Rightarrow> (Signaled sig core [], w')
      | (RunFailed e, w') \<Rightarrow> (RunFailed e, w'))"

subsection \<open>The failing step and its message, as the amended claim words them\<close>

text \<open>A step has succeeded when its process has exited with the status 0.\<close>

fun succeeded :: "finished \<Rightarrow> bool" where
  "succeeded (Exited n _) = (n = 0)"
| "succeeded (Signaled _ _ _) = False"
| "succeeded (RunFailed _) = False"

text \<open>
  The text for the way a process ended: its exit status, its signal, or the error of
  \<open>Run\<close> itself. Nothing of the standard error is in it.
\<close>

fun end_text :: "finished \<Rightarrow> string" where
  "end_text (Exited n _) = ''exit status '' @ decimal n"
| "end_text (Signaled sig core _) =
     ''signal: '' @ sig @ (if core then '' (core dumped)'' else '''')"
| "end_text (RunFailed e) = e"

text \<open>
  The steps are run in order, each in the world that the steps before it have left. The
  failing step is the first aborting step that has not succeeded: its stage and the way
  its process ended. A best-effort step is run and its end is not looked at.
\<close>

fun first_failure ::
  "'w tool \<Rightarrow> (command \<times> policy) list \<Rightarrow> 'w \<Rightarrow> (stage \<times> finished) option"
where
  "first_failure tool [] w = None"
| "first_failure tool ((c, BestEffort) # rest) w = first_failure tool rest (snd (tool c w))"
| "first_failure tool ((c, Aborting st) # rest) w =
     (if succeeded (fst (tool c w)) then first_failure tool rest (snd (tool c w))
      else Some (st, fst (tool c w)))"

section \<open>The batch as one sequence of steps\<close>

text \<open>
  The steps of the selected entries, those with the value \<open>true\<close>, laid end to end in
  the order of the iteration.
\<close>

definition batch_steps ::
  "project list \<Rightarrow> string \<Rightarrow> (int \<times> bool) list \<Rightarrow> (command \<times> policy) list"
where
  "batch_steps ps b kvs =
     concat (map (\<lambda>kv. spec_steps (path (ps ! nat (fst kv))) (operation_of b))
               (filter snd kvs))"

text \<open>The one message of a batch, for the outcome of that sequence.\<close>

fun outcome_msg :: "outcome \<Rightarrow> msg" where
  "outcome_msg Success = complete_msg"
| "outcome_msg (Failure st err) = error_msg (stage_text st @ err)"

text \<open>Every selected entry is an index of the list of projects.\<close>

definition in_range :: "project list \<Rightarrow> (int \<times> bool) list \<Rightarrow> bool" where
  "in_range ps kvs = list_all (\<lambda>kv. snd kv \<longrightarrow> 0 \<le> fst kv \<and> fst kv < int (length ps)) kvs"

section \<open>Observing the commands\<close>

text \<open>The commands that \<open>switchBranch\<close> gives to the runner, in the order of the calls.\<close>

definition commands_run :: "'w runner \<Rightarrow> string \<Rightarrow> string \<Rightarrow> 'w \<Rightarrow> command list" where
  "commands_run run p b w = fst (snd (switchBranch (logged run) p b ([], w)))"

section \<open>The repositories of a directory, as the specification words them\<close>

text \<open>
  The base directory is the parent of the working directory, and its children are the
  entries that \<open>os.ReadDir\<close> returns for it. A child is a repository when it is a
  directory and \<open>.git\<close> directly inside it is a directory.
\<close>

definition parent_dir :: "filesystem \<Rightarrow> string" where
  "parent_dir fs = Dir fs (fst (Getwd fs))"

definition children :: "filesystem \<Rightarrow> dirent list" where
  "children fs = fst (ReadDir fs (parent_dir fs))"

definition is_repository :: "filesystem \<Rightarrow> string \<Rightarrow> dirent \<Rightarrow> bool" where
  "is_repository fs parentDir d \<longleftrightarrow>
     IsDir d \<and> Stat fs (Join fs [parentDir, Name d, ''.git'']) = Inr True"

definition descriptor :: "filesystem \<Rightarrow> string \<Rightarrow> dirent \<Rightarrow> project" where
  "descriptor fs parentDir d = \<lparr>name = Name d, path = Join fs [parentDir, Name d]\<rparr>"

section \<open>Concrete inputs\<close>

subsection \<open>Runners and tools\<close>

text \<open>A runner whose only failure is the fetch in \<open>/w/a\<close>, and one that never fails.\<close>

definition fetch_fails :: "unit runner" where
  "fetch_fails c w =
     ((if c = [''git'', ''-C'', ''/w/a'', ''fetch'', ''origin''] then Some ''exit status 128''
       else None), w)"

definition all_ok :: "unit runner" where
  "all_ok c w = (None, w)"

text \<open>
  Two tools whose fetch in \<open>/w/a\<close> exits with status 128, for two different reasons told
  on standard error.
\<close>

definition no_remote :: "unit tool" where
  "no_remote c w =
     ((if c = [''git'', ''-C'', ''/w/a'', ''fetch'', ''origin'']
       then Exited 128 ''fatal: origin does not appear to be a git repository''
       else Exited 0 []), w)"

definition no_network :: "unit tool" where
  "no_network c w =
     ((if c = [''git'', ''-C'', ''/w/a'', ''fetch'', ''origin'']
       then Exited 128 ''fatal: unable to access the remote: Could not resolve host''
       else Exited 0 []), w)"

text \<open>A runner whose only failure is the pull in \<open>/w/a\<close>.\<close>

definition pull_fails :: "unit runner" where
  "pull_fails c w =
     ((if c = [''git'', ''-C'', ''/w/a'', ''pull'', ''origin'', ''main''] then Some ''exit status 1''
       else None), w)"

text \<open>A tool whose pull in \<open>/w/a\<close> is killed, and whose branch deletion fails.\<close>

definition killed_pull :: "unit tool" where
  "killed_pull c w =
     ((if c = [''git'', ''-C'', ''/w/a'', ''pull'', ''origin'', ''main'']
       then Signaled ''killed'' False ''''
       else if c = [''git'', ''-C'', ''/w/a'', ''branch'', ''-D'', ''main'']
       then Exited 1 ''error: branch main not found.''
       else Exited 0 []), w)"

subsection \<open>Models\<close>

definition repo_a :: project where
  "repo_a = \<lparr>name = ''a'', path = ''/w/a''\<rparr>"

definition repo_b :: project where
  "repo_b = \<lparr>name = ''b'', path = ''/w/b''\<rparr>"

definition repo_c :: project where
  "repo_c = \<lparr>name = ''c'', path = ''/w/c''\<rparr>"

text \<open>The model that \<open>main\<close> starts the program with, for a list of projects.\<close>

definition start :: "project list \<Rightarrow> model" where
  "start ps =
     \<lparr>projects = ps, selected = fmempty, cursor = 0, mode = modeSelectAction, action = 0,
      branchName = '''', processing = False, error = ''''\<rparr>"

text \<open>The model after a sequence of key presses.\<close>

definition press :: "model \<Rightarrow> string list \<Rightarrow> model" where
  "press m ks = foldl (\<lambda>m k. fst (Update m (KeyMsg k))) m ks"

text \<open>
  One repository, chosen for a new branch and then toggled off: its entry stays in the
  map, with the value \<open>false\<close>.
\<close>

definition deselected_a :: model where
  "deselected_a =
     \<lparr>projects = [repo_a], selected = fmupd 0 False fmempty, cursor = 0,
      mode = modeSelectProjects, action = 1, branchName = '''', processing = False,
      error = ''''\<rparr>"

text \<open>The same with the plain switch as the action.\<close>

definition deselected_a_plain :: model where
  "deselected_a_plain =
     \<lparr>projects = [repo_a], selected = fmupd 0 False fmempty, cursor = 0,
      mode = modeSelectProjects, action = 0, branchName = '''', processing = False,
      error = ''''\<rparr>"

text \<open>Two repositories, the second one toggled off.\<close>

definition second_off :: model where
  "second_off =
     \<lparr>projects = [repo_a, repo_b], selected = fmupd 1 False (fmupd 0 True fmempty), cursor = 1,
      mode = modeSelectProjects, action = 0, branchName = '''', processing = False,
      error = ''''\<rparr>"

text \<open>One repository, selected, with the plain switch as the action.\<close>

definition selecting_a :: model where
  "selecting_a =
     \<lparr>projects = [repo_a], selected = fmupd 0 True fmempty, cursor = 0,
      mode = modeSelectProjects, action = 0, branchName = '''', processing = False,
      error = ''''\<rparr>"

text \<open>Two repositories, both selected.\<close>

definition both_selected :: model where
  "both_selected =
     \<lparr>projects = [repo_a, repo_b], selected = fmupd 1 True (fmupd 0 True fmempty), cursor = 0,
      mode = modeSelectProjects, action = 0, branchName = '''', processing = False,
      error = ''''\<rparr>"

subsection \<open>File systems\<close>

text \<open>Paths with \<open>/\<close> as the separator, enough for the directories below.\<close>

fun join_slash :: "string list \<Rightarrow> string" where
  "join_slash [] = []"
| "join_slash [x] = x"
| "join_slash (x # y # zs) = x @ ''/'' @ join_slash (y # zs)"

definition dir_of :: "string \<Rightarrow> string" where
  "dir_of p = rev (tl (dropWhile (\<lambda>c. c \<noteq> CHR ''/'') (rev p)))"

text \<open>
  The program runs in \<open>/w/tool\<close>. In \<open>/w\<close>: two repositories, a file, a directory
  without \<open>.git\<close> and a directory whose \<open>.git\<close> is a file.
\<close>

definition fs_example :: filesystem where
  "fs_example =
     \<lparr>Getwd = (''/w/tool'', None),
      ReadDir = (\<lambda>p. if p = ''/w'' then
         ([\<lparr>Name = ''zeta'', IsDir = True\<rparr>, \<lparr>Name = ''notes.txt'', IsDir = False\<rparr>,
           \<lparr>Name = ''alpha'', IsDir = True\<rparr>, \<lparr>Name = ''beta'', IsDir = True\<rparr>,
           \<lparr>Name = ''gamma'', IsDir = True\<rparr>], None)
         else ([], Some ''no such file or directory'')),
      Stat = (\<lambda>p. if p = ''/w/alpha/.git'' \<or> p = ''/w/zeta/.git'' then Inr True
                    else if p = ''/w/gamma/.git'' then Inr False
                    else Inl ''no such file or directory''),
      Dir = dir_of, Join = join_slash\<rparr>"

text \<open>A parent directory that cannot be read, and one that is read and is empty.\<close>

definition fs_unreadable :: filesystem where
  "fs_unreadable =
     \<lparr>Getwd = (''/w/tool'', None),
      ReadDir = (\<lambda>p. ([], Some ''permission denied'')),
      Stat = (\<lambda>p. Inl ''permission denied''),
      Dir = dir_of, Join = join_slash\<rparr>"

definition fs_no_repos :: filesystem where
  "fs_no_repos =
     \<lparr>Getwd = (''/w/tool'', None),
      ReadDir = (\<lambda>p. ([], None)),
      Stat = (\<lambda>p. Inl ''no such file or directory''),
      Dir = dir_of, Join = join_slash\<rparr>"

section \<open>Properties of \<open>switchBranch\<close>\<close>

lemma switchBranch_refines:
  "switchBranch run p b w =
     (case spec_execute run (spec_steps p (operation_of b)) w of
        (out, w') \<Rightarrow> (outcome_error out, w'))"
  by (simp add: switchBranch_def spec_steps_def operation_of_def
      split: prod.splits option.splits)

text \<open>Recording the commands changes neither the outcome nor the world.\<close>

lemma spec_execute_logged:
  "spec_execute (logged run) steps (l, w) =
     (fst (spec_execute run steps w),
      (fst (snd (spec_execute (logged run) steps (l, w))), snd (spec_execute run steps w)))"
proof (induction steps arbitrary: l w)
  case Nil
  then show ?case by simp
next
  case (Cons s rest)
  obtain c pol where s: "s = (c, pol)" by (cases s)
  obtain e w' where r: "run c w = (e, w')" by (cases "run c w")
  show ?case using Cons[of "l @ [c]" w'] r s
    by (cases pol; cases e) (simp_all add: logged_def)
qed

lemma switchBranch_logged:
  "switchBranch (logged run) p b (l, w) =
     (fst (switchBranch run p b w),
      (fst (snd (switchBranch (logged run) p b (l, w))), snd (switchBranch run p b w)))"
  using spec_execute_logged[of run "spec_steps p (operation_of b)" l w]
  by (cases "spec_execute run (spec_steps p (operation_of b)) w";
      cases "spec_execute (logged run) (spec_steps p (operation_of b)) (l, w)")
     (simp add: switchBranch_refines)

text \<open>
  The commands of a run are the steps up to and including the first aborting step that
  fails, and all of them when none does.
\<close>

lemma spec_execute_log:
  "(case fst (spec_execute run steps w) of
      Success \<Rightarrow> fst (snd (spec_execute (logged run) steps (l, w))) = l @ map fst steps
    | Failure st err \<Rightarrow>
        (\<exists>k. k < length steps \<and> snd (steps ! k) = Aborting st
           \<and> fst (snd (spec_execute (logged run) steps (l, w)))
               = l @ take (Suc k) (map fst steps)))"
proof (induction steps arbitrary: l w)
  case Nil
  then show ?case by simp
next
  case (Cons s rest)
  obtain c pol where s: "s = (c, pol)" by (cases s)
  obtain e w' where r: "run c w = (e, w')" by (cases "run c w")
  have step: "\<exists>k<Suc (length rest). snd (((c, pol) # rest) ! k) = Aborting st \<and>
      fst (snd (spec_execute (logged run) rest (l @ [c], w')))
        = l @ take (Suc k) (c # map fst rest)"
    if "\<exists>k<length rest. snd (rest ! k) = Aborting st \<and>
      fst (snd (spec_execute (logged run) rest (l @ [c], w')))
        = l @ c # take (Suc k) (map fst rest)" for st
  proof -
    from that obtain k where "k < length rest" "snd (rest ! k) = Aborting st"
      "fst (snd (spec_execute (logged run) rest (l @ [c], w')))
         = l @ c # take (Suc k) (map fst rest)"
      by blast
    then show ?thesis
      by (intro exI[of _ "Suc k"]) simp
  qed
  show ?case
  proof (cases "pol = BestEffort \<or> e = None")
    case True
    then have "spec_execute run (s # rest) w = spec_execute run rest w'"
      and "spec_execute (logged run) (s # rest) (l, w)
             = spec_execute (logged run) rest (l @ [c], w')"
      using r s by (cases pol; cases e; simp add: logged_def)+
    then show ?thesis using Cons[of "l @ [c]" w'] s step
      by (auto split: outcome.splits)
  next
    case False
    then obtain st err where "pol = Aborting st" "e = Some err"
      by (cases pol; cases e) auto
    then show ?thesis using r s by (auto simp: logged_def)
  qed
qed

text \<open>
  C2. For every runner, repository path, branch name and world, \<open>switchBranch\<close> is the
  fixed sequence of the specification run in order: stash (best effort), fetch origin
  (aborting, stage Fetch), branch -D main (best effort), checkout --track origin/main
  (aborting, stage Checkout), pull origin main (aborting, stage Pull) and, for a branch
  name that is not empty only, checkout -b with that name (aborting, stage BranchCreate).
  It returns no error exactly when the sequence ends in Success, and the error of a
  Failure is the text of its stage followed by the command's error. The commands given to
  the runner are all the steps on Success, and on Failure the steps up to and including
  the aborting step that failed: nothing runs after it, and no further command undoes an
  earlier one.
\<close>

theorem switchBranch_fixed_sequence:
  "switchBranch run p b w =
     (case spec_execute run (spec_steps p (operation_of b)) w of
        (out, w') \<Rightarrow> (outcome_error out, w'))
   \<and> (case fst (spec_execute run (spec_steps p (operation_of b)) w) of
        Success \<Rightarrow> commands_run run p b w = map fst (spec_steps p (operation_of b))
      | Failure st err \<Rightarrow>
          (\<exists>k. k < length (spec_steps p (operation_of b))
             \<and> snd (spec_steps p (operation_of b) ! k) = Aborting st
             \<and> commands_run run p b w
                 = take (Suc k) (map fst (spec_steps p (operation_of b)))))"
proof -
  let ?steps = "spec_steps p (operation_of b)"
  have "commands_run run p b w = fst (snd (spec_execute (logged run) ?steps ([], w)))"
    by (cases "spec_execute (logged run) ?steps ([], w)")
       (simp add: commands_run_def switchBranch_refines)
  then show ?thesis
    using spec_execute_log[where run = run and steps = ?steps and w = w and l = "[]"]
      switchBranch_refines[of run p b w]
    by (simp split: outcome.splits)
qed

theorem switchBranch_fixed_sequence_witness:
  "switchBranch fetch_fails ''/w/a'' ''x'' ()
     = (Some ''failed to fetch: exit status 128'', ())
   \<and> commands_run fetch_fails ''/w/a'' ''x'' ()
     = [[''git'', ''-C'', ''/w/a'', ''stash''], [''git'', ''-C'', ''/w/a'', ''fetch'', ''origin'']]
   \<and> switchBranch all_ok ''/w/b'' ''x'' () = (None, ())
   \<and> commands_run all_ok ''/w/b'' ''x'' ()
     = [[''git'', ''-C'', ''/w/b'', ''stash''],
        [''git'', ''-C'', ''/w/b'', ''fetch'', ''origin''],
        [''git'', ''-C'', ''/w/b'', ''branch'', ''-D'', ''main''],
        [''git'', ''-C'', ''/w/b'', ''checkout'', ''--track'', ''origin/main''],
        [''git'', ''-C'', ''/w/b'', ''pull'', ''origin'', ''main''],
        [''git'', ''-C'', ''/w/b'', ''checkout'', ''-b'', ''x'']]"
proof -
  have "switchBranch fetch_fails ''/w/a'' ''x'' ()
          = (Some ''failed to fetch: exit status 128'', ())
      \<and> commands_run fetch_fails ''/w/a'' ''x'' ()
          = [[''git'', ''-C'', ''/w/a'', ''stash''],
             [''git'', ''-C'', ''/w/a'', ''fetch'', ''origin'']]"
    using switchBranch_fixed_sequence[of fetch_fails "''/w/a''" "''x''" "()"]
    by (simp add: fetch_fails_def spec_steps_def operation_of_def commands_run_def
        switchBranch_def logged_def)
  moreover have "switchBranch all_ok ''/w/b'' ''x'' () = (None, ())
      \<and> commands_run all_ok ''/w/b'' ''x'' ()
          = [[''git'', ''-C'', ''/w/b'', ''stash''],
             [''git'', ''-C'', ''/w/b'', ''fetch'', ''origin''],
             [''git'', ''-C'', ''/w/b'', ''branch'', ''-D'', ''main''],
             [''git'', ''-C'', ''/w/b'', ''checkout'', ''--track'', ''origin/main''],
             [''git'', ''-C'', ''/w/b'', ''pull'', ''origin'', ''main''],
             [''git'', ''-C'', ''/w/b'', ''checkout'', ''-b'', ''x'']]"
    using switchBranch_fixed_sequence[of all_ok "''/w/b''" "''x''" "()"]
    by (simp add: all_ok_def spec_steps_def operation_of_def)
  ultimately show ?thesis by simp
qed

section \<open>The text of a failure\<close>

lemma Run_silenced: "Run (silenced tool) = Run tool"
  by (rule ext, rule ext) (simp add: Run_def silenced_def split: prod.splits finished.splits)

lemma Run_end_text:
  "Run tool c w =
     ((if succeeded (fst (tool c w)) then None else Some (end_text (fst (tool c w)))),
      snd (tool c w))"
  by (cases "tool c w"; cases "fst (tool c w)") (auto simp: Run_def)

text \<open>
  With \<open>Run\<close> as the runner, the sequence ends in the failure of the first aborting step
  that has not succeeded, with the text of the way its process ended.
\<close>

lemma spec_execute_first_failure:
  "fst (spec_execute (Run tool) steps w) =
     (case first_failure tool steps w of
        None \<Rightarrow> Success
      | Some (st, r) \<Rightarrow> Failure st (end_text r))"
proof (induction steps arbitrary: w)
  case Nil
  then show ?case by simp
next
  case (Cons s rest)
  obtain c pol where s: "s = (c, pol)" by (cases s)
  show ?case
  proof (cases pol)
    case BestEffort
    then show ?thesis using Cons[of "snd (tool c w)"] s
      by (simp add: Run_end_text)
  next
    case (Aborting st)
    then show ?thesis using Cons[of "snd (tool c w)"] s
      by (simp add: Run_end_text)
  qed
qed

text \<open>
  C10, as the claim states it, fails: a fetch that exits with status 128 because there is
  no such remote and one that exits with status 128 because the host cannot be reached
  give the same message, which holds the exit status and nothing of what either wrote to
  its standard error.
\<close>

theorem failure_message_counterexample:
  "fst (switchBranch (Run no_remote) ''/w/a'' '''' ())
     = Some ''failed to fetch: exit status 128''
   \<and> fst (switchBranch (Run no_network) ''/w/a'' '''' ())
     = Some ''failed to fetch: exit status 128''"
  by (simp add: switchBranch_def Run_def no_remote_def no_network_def decimal.simps)

text \<open>
  C10, amended. Whenever an aborting step of the sequence fails, the message is the text
  of the stage of that step followed by the text of the error that \<open>Run\<close> returned for
  it: \<open>exit status N\<close> for a command that exited with the status N, not 0,
  \<open>signal: name\<close> for a command that a signal ended, or the text of the error that
  \<open>Run\<close> itself had. The failing step is the first aborting step, in the order of the
  sequence, whose process has not exited with the status 0; when there is none, there is
  no error. What the command wrote to its standard error is not in the message:
  emptying the standard error of every command changes nothing of what \<open>switchBranch\<close>
  returns.
\<close>

theorem failure_message_exit_status:
  "fst (switchBranch (Run tool) p b w)
     = (case first_failure tool (spec_steps p (operation_of b)) w of
          None \<Rightarrow> None
        | Some (st, r) \<Rightarrow> Some (stage_text st @ end_text r))
   \<and> switchBranch (Run (silenced tool)) p b w = switchBranch (Run tool) p b w"
proof -
  obtain out w' where e: "spec_execute (Run tool) (spec_steps p (operation_of b)) w = (out, w')"
    by (cases "spec_execute (Run tool) (spec_steps p (operation_of b)) w")
  then have "fst (switchBranch (Run tool) p b w) = outcome_error out"
    by (simp add: switchBranch_refines)
  moreover have "out = (case first_failure tool (spec_steps p (operation_of b)) w of
                          None \<Rightarrow> Success
                        | Some (st, r) \<Rightarrow> Failure st (end_text r))"
    using spec_execute_first_failure[of tool "spec_steps p (operation_of b)" w] e by simp
  ultimately show ?thesis
    by (simp add: Run_silenced split: option.splits prod.splits)
qed

theorem failure_message_exit_status_witness:
  "first_failure no_remote (spec_steps ''/w/a'' (operation_of '''')) ()
     = Some (Fetch, Exited 128 ''fatal: origin does not appear to be a git repository'')
   \<and> fst (switchBranch (Run no_remote) ''/w/a'' '''' ())
     = Some ''failed to fetch: exit status 128''
   \<and> first_failure killed_pull (spec_steps ''/w/a'' (operation_of ''x'')) ()
     = Some (Pull, Signaled ''killed'' False '''')
   \<and> fst (switchBranch (Run killed_pull) ''/w/a'' ''x'' ())
     = Some ''failed to pull: signal: killed''"
proof -
  have f1: "first_failure no_remote (spec_steps ''/w/a'' (operation_of '''')) ()
     = Some (Fetch, Exited 128 ''fatal: origin does not appear to be a git repository'')"
    by (simp add: spec_steps_def operation_of_def no_remote_def)
  have f2: "first_failure killed_pull (spec_steps ''/w/a'' (operation_of ''x'')) ()
     = Some (Pull, Signaled ''killed'' False '''')"
    by (simp add: spec_steps_def operation_of_def killed_pull_def)
  show ?thesis
    using f1 f2
      failure_message_exit_status[of no_remote "''/w/a''" "''''" "()", THEN conjunct1]
      failure_message_exit_status[of killed_pull "''/w/a''" "''x''" "()", THEN conjunct1]
    by (simp add: decimal.simps)
qed

section \<open>Properties of the batch\<close>

lemma complete_not_error [simp]:
  "complete_msg \<noteq> error_msg err" "error_msg err \<noteq> complete_msg"
  by (simp_all add: complete_msg_def error_msg_def)

text \<open>The loop over two stretches of entries: the second one runs when the first completes.\<close>

lemma process_entries_append:
  "process_entries run ps b (xs @ ys) w =
     (case process_entries run ps b xs w of
        (Inr r, w') \<Rightarrow> if r = complete_msg then process_entries run ps b ys w' else (Inr r, w')
      | (Inl p, w') \<Rightarrow> (Inl p, w'))"
proof (induction xs arbitrary: w)
  case Nil
  then show ?case by simp
next
  case (Cons x xs)
  obtain i sel where x: "x = (i, sel)" by (cases x)
  show ?case using Cons x
    by (auto split: prod.splits option.splits sum.splits)
qed

lemma switchBranch_log_success:
  assumes "switchBranch (logged run) p b (l, w) = (None, (l', w'))"
  shows "l' = l @ map fst (spec_steps p (operation_of b))"
proof -
  let ?steps = "spec_steps p (operation_of b)"
  obtain out s where e: "spec_execute (logged run) ?steps (l, w) = (out, s)"
    by (cases "spec_execute (logged run) ?steps (l, w)")
  with assms have "out = Success" "s = (l', w')"
    by (cases out; simp add: switchBranch_refines)+
  moreover have "fst (spec_execute run ?steps w) = out"
    using spec_execute_logged[of run ?steps l w] e by simp
  ultimately show ?thesis
    using spec_execute_log[where run = run and steps = ?steps and w = w and l = l] e
    by simp
qed

text \<open>
  C1, as the claim states it, fails: with both repositories selected and the fetch in
  \<open>/w/a\<close> failing, and the iteration taking the entry of \<open>/w/a\<close> first, the batch ends
  with the one message of that failure after two commands, and no command is ever run in
  \<open>/w/b\<close>.
\<close>

theorem batch_isolation_counterexample:
  "map_range (selected both_selected) [(0, True), (1, True)]
   \<and> run_cmd (logged fetch_fails) (processProjects both_selected '''')
         [(0, True), (1, True)] ([], ())
     = Some (Inr (error_msg ''failed to fetch: exit status 128''),
             ([[''git'', ''-C'', ''/w/a'', ''stash''],
               [''git'', ''-C'', ''/w/a'', ''fetch'', ''origin'']], ()))"
  by (simp add: map_range_def both_selected_def fmupd_reorder_neq processProjects_def
      repo_a_def repo_b_def switchBranch_def logged_def fetch_fails_def)

text \<open>
  C1, amended. The batch takes the entries of the map one after the other, in the order
  of the iteration, and stops at the first selected repository whose \<open>switchBranch\<close>
  fails: when the entries before it have been processed to the end and the sequence of
  repository \<open>i\<close> fails with an error, the result of the batch is the single message
  \<open>msgError\<close> with that error, and the world is the one that this failed sequence left:
  the entries after it are never started. There is no outcome per repository.
\<close>

theorem batch_stops_at_first_failure:
  assumes "process_entries run ps b pre w = (Inr complete_msg, w1)"
    and "0 \<le> i" and "i < int (length ps)"
    and "switchBranch run (path (ps ! nat i)) b w1 = (Some err, w2)"
  shows "process_entries run ps b (pre @ (i, True) # post) w = (Inr (error_msg err), w2)"
  using assms by (simp add: process_entries_append)

theorem batch_stops_at_first_failure_witness:
  "process_entries (logged fetch_fails) [repo_a, repo_b, repo_c] ''''
       ([(1, True)] @ (0, True) # [(2, True)]) ([], ())
     = (Inr (error_msg ''failed to fetch: exit status 128''),
        (map fst (spec_steps ''/w/b'' SwitchToMain)
           @ [[''git'', ''-C'', ''/w/a'', ''stash''],
              [''git'', ''-C'', ''/w/a'', ''fetch'', ''origin'']], ()))"
  using batch_stops_at_first_failure[of "logged fetch_fails" "[repo_a, repo_b, repo_c]" "''''"
      "[(1, True)]" "([], ())" "(map fst (spec_steps ''/w/b'' SwitchToMain), ())" 0
      "''failed to fetch: exit status 128''"
      "(map fst (spec_steps ''/w/b'' SwitchToMain)
           @ [[''git'', ''-C'', ''/w/a'', ''stash''],
              [''git'', ''-C'', ''/w/a'', ''fetch'', ''origin'']], ())"
      "[(2, True)]"]
  by (simp add: repo_a_def repo_b_def repo_c_def switchBranch_def logged_def fetch_fails_def
      spec_steps_def)

text \<open>
  C3, as the claim states it, fails: the entries of the map taken in the order 1, 0 are
  an iteration that Go allows for the selection of both repositories, and then every
  command in \<open>/w/b\<close> runs before the first command in \<open>/w/a\<close>; the result is one message
  for the run, not a sequence of outcomes.
\<close>

theorem batch_order_counterexample:
  "map_range (selected both_selected) [(1, True), (0, True)]
   \<and> run_cmd (logged all_ok) (processProjects both_selected '''')
         [(1, True), (0, True)] ([], ())
     = Some (Inr complete_msg,
             (map fst (spec_steps ''/w/b'' SwitchToMain)
                @ map fst (spec_steps ''/w/a'' SwitchToMain), ()))"
  by (simp add: map_range_def both_selected_def processProjects_def
      repo_a_def repo_b_def switchBranch_def logged_def all_ok_def spec_steps_def)

text \<open>
  C3, amended. The result of a batch is one message, not a sequence of outcomes, and the
  repositories are processed in the order in which the iteration over the map gives its
  entries, which need not be the order of the selection: when the batch completes, the
  commands that ran are the full sequences of the entries with the value \<open>true\<close>, one
  repository after the other in the order of the iteration.
\<close>

theorem batch_follows_iteration_order:
  assumes "process_entries (logged run) ps b kvs (l, w) = (Inr complete_msg, (l', w'))"
  shows "l' = l @ concat (map (\<lambda>kv. map fst (spec_steps (path (ps ! nat (fst kv))) (operation_of b)))
                          (filter snd kvs))"
  using assms
proof (induction kvs arbitrary: l w)
  case Nil
  then show ?case by simp
next
  case (Cons kv kvs)
  obtain i sel where kv: "kv = (i, sel)" by (cases kv)
  show ?case
  proof (cases sel)
    case False
    then show ?thesis using Cons kv by simp
  next
    case True
    with Cons.prems kv have inr: "\<not> (i < 0 \<or> int (length ps) \<le> i)"
      by (auto split: if_splits)
    obtain e l1 w1
      where sb: "switchBranch (logged run) (path (ps ! nat i)) b (l, w) = (e, (l1, w1))"
      by (cases "switchBranch (logged run) (path (ps ! nat i)) b (l, w)") auto
    with Cons.prems kv True inr have e: "e = None"
      and rest: "process_entries (logged run) ps b kvs (l1, w1) = (Inr complete_msg, (l', w'))"
      by (cases e; simp)+
    from sb e have "l1 = l @ map fst (spec_steps (path (ps ! nat i)) (operation_of b))"
      by (simp add: switchBranch_log_success)
    with Cons.IH[OF rest] kv True show ?thesis by simp
  qed
qed

theorem batch_follows_iteration_order_witness:
  "process_entries (logged all_ok) [repo_a, repo_b, repo_c] ''x''
       [(2, True), (1, False), (0, True)] ([], ())
     = (Inr complete_msg,
        (map fst (spec_steps ''/w/c'' (SwitchToMainAndBranch ''x''))
           @ map fst (spec_steps ''/w/a'' (SwitchToMainAndBranch ''x'')), ()))"
  using batch_follows_iteration_order[of all_ok "[repo_a, repo_b, repo_c]" "''x''"
      "[(2, True), (1, False), (0, True)]" "[]" "()"
      "map fst (spec_steps ''/w/c'' (SwitchToMainAndBranch ''x''))
           @ map fst (spec_steps ''/w/a'' (SwitchToMainAndBranch ''x''))" "()"]
  by (simp add: repo_a_def repo_b_def repo_c_def switchBranch_def logged_def all_ok_def
      spec_steps_def operation_of_def)

section \<open>The batch is one sequential run\<close>

lemma spec_execute_append:
  "spec_execute run (xs @ ys) w =
     (case spec_execute run xs w of
        (Success, w') \<Rightarrow> spec_execute run ys w'
      | (Failure st err, w') \<Rightarrow> (Failure st err, w'))"
proof (induction xs arbitrary: w)
  case Nil
  then show ?case by simp
next
  case (Cons s rest)
  obtain c pol where s: "s = (c, pol)" by (cases s)
  obtain e w' where r: "run c w = (e, w')" by (cases "run c w")
  show ?case using Cons[of w'] r s
    by (cases pol; cases e) simp_all
qed

lemma process_entries_sequential:
  assumes "in_range ps kvs"
  shows "process_entries run ps b kvs w =
           (case spec_execute run (batch_steps ps b kvs) w of
              (out, w') \<Rightarrow> (Inr (outcome_msg out), w'))"
  using assms
proof (induction kvs arbitrary: w)
  case Nil
  then show ?case by (simp add: batch_steps_def)
next
  case (Cons kv kvs)
  obtain i sel where kv: "kv = (i, sel)" by (cases kv)
  from Cons.prems have rest: "in_range ps kvs" by (simp add: in_range_def)
  show ?case
  proof (cases sel)
    case False
    then show ?thesis using Cons.IH[OF rest] kv by (simp add: batch_steps_def)
  next
    case True
    with Cons.prems kv have inr: "\<not> (i < 0 \<or> int (length ps) \<le> i)"
      by (auto simp: in_range_def)
    let ?steps = "spec_steps (path (ps ! nat i)) (operation_of b)"
    obtain out w1 where e: "spec_execute run ?steps w = (out, w1)"
      by (cases "spec_execute run ?steps w")
    have bs: "batch_steps ps b ((i, True) # kvs) = ?steps @ batch_steps ps b kvs"
      by (simp add: batch_steps_def)
    show ?thesis
    proof (cases out)
      case Success
      then show ?thesis using e kv True inr Cons.IH[OF rest, of w1]
        by (simp add: bs spec_execute_append switchBranch_refines)
    next
      case (Failure st err)
      then show ?thesis using e kv True inr
        by (simp add: bs spec_execute_append switchBranch_refines)
    qed
  qed
qed

text \<open>
  C7, as the claim states it, fails: with both repositories selected and the pull in
  \<open>/w/a\<close> failing, and the iteration taking the entry of \<open>/w/a\<close> first, the five
  commands in \<open>/w/a\<close> run one after the other, the message of the batch is sent at that
  failure, and no command has run in \<open>/w/b\<close>: its sequence does not run at the same
  time as that of \<open>/w/a\<close>, and the message does not wait for it to finish.
\<close>

theorem batch_not_concurrent_counterexample:
  "map_range (selected both_selected) [(0, True), (1, True)]
   \<and> run_cmd (logged pull_fails) (processProjects both_selected '''')
         [(0, True), (1, True)] ([], ())
     = Some (Inr (error_msg ''failed to pull: exit status 1''),
             ([[''git'', ''-C'', ''/w/a'', ''stash''],
               [''git'', ''-C'', ''/w/a'', ''fetch'', ''origin''],
               [''git'', ''-C'', ''/w/a'', ''branch'', ''-D'', ''main''],
               [''git'', ''-C'', ''/w/a'', ''checkout'', ''--track'', ''origin/main''],
               [''git'', ''-C'', ''/w/a'', ''pull'', ''origin'', ''main'']], ()))"
  by (simp add: map_range_def both_selected_def fmupd_reorder_neq processProjects_def
      repo_a_def repo_b_def switchBranch_def logged_def pull_fails_def)

text \<open>
  C7, amended. The batch executes the sequences of the selected repositories one after
  the other, not at the same time: for every runner and every order of the iteration,
  the batch is one sequential run of the command sequences of the selected repositories
  laid end to end in that order, which the first aborting step that fails ends. It
  returns a single message, \<open>msgProcessComplete\<close> when every step of every selected
  repository has been run, and otherwise \<open>msgError\<close> at the first failure, when the
  commands that have run are the steps up to and including the failing one and the
  repositories after it have not been started. (On which thread the framework runs the
  callback is left out.)
\<close>

theorem batch_is_one_sequential_run:
  assumes "in_range ps kvs"
  shows "process_entries run ps b kvs w =
           (case spec_execute run (batch_steps ps b kvs) w of
              (out, w') \<Rightarrow> (Inr (outcome_msg out), w'))
       \<and> (case fst (spec_execute run (batch_steps ps b kvs) w) of
            Success \<Rightarrow>
              fst (snd (process_entries (logged run) ps b kvs ([], w)))
                = map fst (batch_steps ps b kvs)
          | Failure st err \<Rightarrow>
              (\<exists>k. k < length (batch_steps ps b kvs)
                 \<and> snd (batch_steps ps b kvs ! k) = Aborting st
                 \<and> fst (snd (process_entries (logged run) ps b kvs ([], w)))
                     = take (Suc k) (map fst (batch_steps ps b kvs))))"
proof -
  let ?steps = "batch_steps ps b kvs"
  have "fst (snd (process_entries (logged run) ps b kvs ([], w)))
          = fst (snd (spec_execute (logged run) ?steps ([], w)))"
    using process_entries_sequential[OF assms, of "logged run" b "([], w)"]
    by (cases "spec_execute (logged run) ?steps ([], w)") simp
  then show ?thesis
    using spec_execute_log[where run = run and steps = ?steps and w = w and l = "[]"]
      process_entries_sequential[OF assms, of run b w]
    by (simp split: outcome.splits)
qed

theorem batch_is_one_sequential_run_witness:
  "in_range [repo_a, repo_b, repo_c] [(2, True), (1, False), (0, True), (7, False)]
   \<and> process_entries (logged pull_fails) [repo_a, repo_b, repo_c] ''''
        [(2, True), (1, False), (0, True), (7, False)] ([], ())
     = (Inr (error_msg ''failed to pull: exit status 1''),
        (map fst (spec_steps ''/w/c'' SwitchToMain)
           @ map fst (spec_steps ''/w/a'' SwitchToMain), ()))"
proof -
  have h: "in_range [repo_a, repo_b, repo_c] [(2, True), (1, False), (0, True), (7, False)]"
    by (simp add: in_range_def)
  show ?thesis
    using h batch_is_one_sequential_run[OF h, of "logged pull_fails" "''''" "([], ())",
        THEN conjunct1]
    by (simp add: batch_steps_def repo_a_def repo_b_def repo_c_def spec_steps_def
        operation_of_def logged_def pull_fails_def)
qed

section \<open>Properties of the update function\<close>

lemma fold_select_dom:
  "fmdom' (fold (\<lambda>i acc. fmupd (int i) True acc) xs s) = fmdom' s \<union> int ` set xs"
  by (induction xs arbitrary: s) auto

lemma map_len_card: "map_len s = card (fmdom' s)"
  by (simp add: map_len_def fcard.rep_eq fmdom'_alt_def)

lemma map_len_select_each: "map_len (select_each ps fmempty) = length ps"
  by (simp add: map_len_card select_each_def fold_select_dom card_image)

lemma map_len_empty: "map_len fmempty = 0"
  by (simp add: map_len_def)

lemma select_each_nil: "select_each [] s = s"
  by (simp add: select_each_def)

lemma map_get_len:
  assumes "map_get s i"
  shows "map_len s \<noteq> 0"
proof -
  from assms have "fmlookup s i = Some True"
    by (auto simp: map_get_def split: option.splits)
  then have "i \<in> fmdom' s" by (rule fmdom'I)
  then have "fmdom' s \<noteq> {}" by blast
  then show ?thesis by (simp add: map_len_card)
qed

lemmas update_simps =
  press_def start_def updateActionSelect_def updateProjectSelect_def updateBranchInput_def
  select_each_def upt_rec map_get_def map_len_def fcard_finsert_if fcard_fempty
  processProjects_def

text \<open>
  With a map that has no entry at all, confirming sets the error, changes nothing else
  and gives no command.
\<close>

lemma confirm_empty_map:
  assumes "mode m = modeSelectProjects" and "selected m = fmempty"
  shows "Update m (KeyMsg ''enter'') = (m\<lparr>error := ''No projects selected''\<rparr>, None)"
  using assms by (simp add: updateProjectSelect_def map_len_empty)

text \<open>
  C4: the code at a failing input. From the start with the one repository \<open>/w/a\<close>, the
  keys down, enter, space lead to the repository selection with the entry of the only
  repository mapped to \<open>false\<close>: no repository is selected. Confirming there sets no
  error and moves to the branch name input; with the plain switch as the action it sets
  no error either and gives the command that starts the batch. The test of the code is
  \<open>len(m.selected) == 0\<close>, and \<open>len\<close> counts the entry that the space key has set to
  \<open>false\<close>.
\<close>

theorem confirm_with_deselected_entry:
  "press (start [repo_a]) [''down'', ''enter'', '' ''] = deselected_a
   \<and> map_get (selected deselected_a) 0 = False
   \<and> Update deselected_a (KeyMsg ''enter'')
       = (deselected_a\<lparr>mode := modeEnterBranch, branchName := ''''\<rparr>, None)
   \<and> press (start [repo_a]) [''enter'', '' ''] = deselected_a_plain
   \<and> Update deselected_a_plain (KeyMsg ''enter'')
       = (deselected_a_plain, Some (Tick deselected_a_plain ''''))"
  by (simp add: update_simps deselected_a_def deselected_a_plain_def)

text \<open>
  From the full selection, the toggle-all key empties the map, and pressed again it
  gives the full selection back.
\<close>

lemma toggle_all_twice:
  assumes "mode m = modeSelectProjects" and "selected m = select_each (projects m) fmempty"
  shows "selected (fst (Update m (KeyMsg ''a''))) = fmempty"
    and "selected (fst (Update (fst (Update m (KeyMsg ''a''))) (KeyMsg ''a'')))
           = select_each (projects m) fmempty"
  using assms
  by (auto simp: updateProjectSelect_def map_len_select_each map_len_empty Let_def
      select_each_nil)

text \<open>
  C5: the code at a failing input. From the start with the repositories \<open>/w/a\<close> and
  \<open>/w/b\<close>, the keys enter, down, space lead to the repository selection with the first
  repository selected and the second one toggled off: the selection is not the full set.
  The toggle-all key there empties the map instead of selecting both. The test of the
  code is \<open>len(m.selected) == len(m.projects)\<close>, and \<open>len\<close> counts the entry that the
  space key has set to \<open>false\<close>.
\<close>

theorem toggle_all_with_deselected_entry:
  "press (start [repo_a, repo_b]) [''enter'', ''down'', '' ''] = second_off
   \<and> map_get (selected second_off) 0 = True
   \<and> map_get (selected second_off) 1 = False
   \<and> Update second_off (KeyMsg ''a'') = (second_off\<lparr>selected := fmempty\<rparr>, None)"
  by (simp add: update_simps second_off_def)

text \<open>No message takes a model into \<open>modeProcessing\<close>.\<close>

lemma Update_never_enters_processing:
  assumes "mode m \<noteq> modeProcessing"
  shows "mode (fst (Update m x)) \<noteq> modeProcessing"
  using assms
  by (cases x; cases "mode m")
     (auto simp: updateActionSelect_def updateProjectSelect_def updateBranchInput_def Let_def)

text \<open>
  C6, as the claim states it, fails: confirming the selection of the one repository with
  the plain switch gives the command of the batch and leaves the model as it is, in the
  repository selection and not in \<open>modeProcessing\<close>; the batch completes; and the
  message of its completion changes nothing: the model is still in the repository
  selection, there is no state that shows results, and no result is kept.
\<close>

theorem confirm_no_processing_state_counterexample:
  "Update selecting_a (KeyMsg ''enter'') = (selecting_a, Some (Tick selecting_a ''''))
   \<and> mode selecting_a = modeSelectProjects
   \<and> run_cmd all_ok (Tick selecting_a '''') [(0, True)] () = Some (Inr complete_msg, ())
   \<and> Update selecting_a (AppMsg complete_msg) = (selecting_a, None)"
  by (simp add: update_simps selecting_a_def repo_a_def switchBranch_def all_ok_def)

text \<open>
  C6, amended. In the repository selection, confirming with at least one repository
  selected and the plain switch as the action gives the command that runs the batch,
  with no branch name, over the model as it is. When the message of the batch comes
  back, whether of completion or of an error, the update leaves the model as it is and
  gives no command: there is no state for the results and the result is not kept.
\<close>

theorem confirm_plain_switch_invokes_batch:
  assumes "mode m = modeSelectProjects" and "map_get (selected m) i" and "action m = 0"
  shows "snd (Update m (KeyMsg ''enter'')) = Some (processProjects m '''')
       \<and> Update m' (AppMsg r) = (m', None)"
  using assms map_get_len[of "selected m" i] by (simp add: updateProjectSelect_def)

theorem confirm_plain_switch_invokes_batch_witness:
  "mode both_selected = modeSelectProjects \<and> map_get (selected both_selected) 1
   \<and> action both_selected = 0
   \<and> snd (Update both_selected (KeyMsg ''enter'')) = Some (processProjects both_selected '''')
   \<and> Update both_selected (AppMsg (error_msg ''failed to pull: exit status 1''))
       = (both_selected, None)"
proof -
  have h1: "mode both_selected = modeSelectProjects"
    and h2: "map_get (selected both_selected) 1"
    and h3: "action both_selected = 0"
    by (simp_all add: both_selected_def map_get_def)
  show ?thesis
    using h1 h2 h3
      confirm_plain_switch_invokes_batch[OF h1 h2 h3, of both_selected
        "error_msg ''failed to pull: exit status 1''"]
    by simp
qed

section \<open>Properties of \<open>findProjects\<close> and \<open>main\<close>\<close>

lemma find_loop_filter:
  "find_loop fs parentDir dirs ps
     = ps @ map (descriptor fs parentDir) (filter (is_repository fs parentDir) dirs)"
  by (induction dirs arbitrary: ps)
     (auto simp: is_repository_def descriptor_def Let_def split: sum.splits bool.splits)

lemma findProjects_eq:
  "findProjects fs = sort_key name (map (descriptor fs (parent_dir fs))
       (filter (is_repository fs (parent_dir fs)) (children fs)))"
  by (simp add: findProjects_def find_loop_filter parent_dir_def children_def Let_def
      split: prod.splits)

text \<open>
  \<open>sort.Slice\<close> is not a stable sort. Here that makes no difference: a project is
  determined by its name, so the projects have one arrangement only that is sorted by
  name.
\<close>

lemma sorted_by_name_unique:
  assumes "mset ys = mset xs" and "sorted (map name ys)" and "inj_on name (set xs)"
  shows "ys = sort_key name xs"
proof -
  have "mset (map name ys) = mset (map name (sort_key name xs))"
    using assms(1) by simp
  moreover have "sorted (map name (sort_key name xs))" by simp
  ultimately have "map name ys = map name (sort_key name xs)"
    using assms(2) by (metis properties_for_sort)
  moreover have "set ys = set xs" "set (sort_key name xs) = set xs"
    using assms(1) mset_eq_setD by auto
  ultimately show ?thesis
    using assms(3) by (metis inj_on_map_eq_map sup.idem inj_on_Un)
qed

lemma descriptor_name_inj: "inj_on name (descriptor fs parentDir ` D)"
  by (auto simp: inj_on_def descriptor_def)

text \<open>
  So whatever arrangement sorted by name \<open>sort.Slice\<close> leaves the found projects in, it
  is the result of \<open>findProjects\<close> here.
\<close>

lemma findProjects_any_sort:
  assumes "mset ys = mset (find_loop fs (parent_dir fs) (children fs) [])"
    and "sorted (map name ys)"
  shows "ys = findProjects fs"
proof -
  let ?xs = "map (descriptor fs (parent_dir fs))
               (filter (is_repository fs (parent_dir fs)) (children fs))"
  have "inj_on name (set ?xs)"
    using descriptor_name_inj[of fs "parent_dir fs"
        "set (filter (is_repository fs (parent_dir fs)) (children fs))"]
    by simp
  with assms have "ys = sort_key name ?xs"
    by (intro sorted_by_name_unique) (simp_all add: find_loop_filter)
  then show ?thesis by (simp add: findProjects_eq)
qed

text \<open>The order of the names is the lexicographic order of their bytes.\<close>

lemma string_less_bytewise:
  "(xs :: string) < ys \<longleftrightarrow> (xs, ys) \<in> lexord {(a, b). (of_char a :: nat) < of_char b}"
  by (simp add: list_less_def less_char_def)

text \<open>
  C8, as the claim states it, fails: for a parent directory that cannot be read and for
  one that is read and has no entry, \<open>findProjects\<close> returns the same empty list and
  \<open>main\<close> ends in the same way, with the same line and the status 1.
\<close>

theorem unreadable_directory_counterexample:
  "snd (ReadDir fs_unreadable (parent_dir fs_unreadable)) = Some ''permission denied''
   \<and> snd (ReadDir fs_no_repos (parent_dir fs_no_repos)) = None
   \<and> findProjects fs_unreadable = [] \<and> findProjects fs_no_repos = []
   \<and> main fs_unreadable = Exit ''No Git repositories found in parent directory'' 1
   \<and> main fs_no_repos = Exit ''No Git repositories found in parent directory'' 1"
  by (simp add: fs_unreadable_def fs_no_repos_def findProjects_def main_def)

text \<open>
  C8, amended. \<open>findProjects\<close> does not fail when the base directory cannot be read: it
  drops the error of \<open>os.ReadDir\<close> and works on the entries returned with it. Whenever
  none of these is a repository, and so when the directory cannot be read and there is
  no entry, the result is the empty list, as it is for a directory that is read and has
  no repository, and \<open>main\<close> prints that no repository was found and exits with the
  status 1.
\<close>

theorem findProjects_ignores_read_error:
  assumes "ReadDir fs (parent_dir fs) = (dirs, e)"
    and "filter (is_repository fs (parent_dir fs)) dirs = []"
  shows "findProjects fs = []
       \<and> main fs = Exit ''No Git repositories found in parent directory'' 1"
  using assms by (simp add: findProjects_eq children_def main_def)

theorem findProjects_ignores_read_error_witness:
  "ReadDir fs_unreadable (parent_dir fs_unreadable) = ([], Some ''permission denied'')
   \<and> findProjects fs_unreadable = []
   \<and> main fs_unreadable = Exit ''No Git repositories found in parent directory'' 1"
proof -
  have h: "ReadDir fs_unreadable (parent_dir fs_unreadable) = ([], Some ''permission denied'')"
    by (simp add: fs_unreadable_def)
  show ?thesis
    using h findProjects_ignores_read_error[OF h] by simp
qed

text \<open>
  C9. For every file system, \<open>findProjects\<close> returns one descriptor for each child of
  the parent directory that is a directory with a directory \<open>.git\<close> directly inside it,
  and none for any other child: as many descriptors as there are such children. The
  result is in ascending order of the names, compared byte by byte.
\<close>

theorem findProjects_exactly_repositories_sorted:
  "mset (findProjects fs)
     = image_mset (descriptor fs (parent_dir fs))
         (filter_mset (is_repository fs (parent_dir fs)) (mset (children fs)))
   \<and> length (findProjects fs)
     = length (filter (is_repository fs (parent_dir fs)) (children fs))
   \<and> sorted (map name (findProjects fs))"
  by (simp add: findProjects_eq)

theorem findProjects_exactly_repositories_sorted_witness:
  "findProjects fs_example
     = [\<lparr>name = ''alpha'', path = ''/w/alpha''\<rparr>, \<lparr>name = ''zeta'', path = ''/w/zeta''\<rparr>]
   \<and> length (filter (is_repository fs_example (parent_dir fs_example)) (children fs_example)) = 2"
  using findProjects_exactly_repositories_sorted[of fs_example]
  by (simp add: findProjects_def fs_example_def dir_of_def)

end
